theory Spec2Isabelle
  imports Complex_Main "HOL-Library.Multiset"
begin

section \<open>Data model\<close>

text \<open>
  The two tables of the squares game, as the schema declares them.  A row of
  \<open>superbowl_squares\<close> keeps the four columns the route handlers read and write
  (\<open>id\<close> and \<open>created_at\<close> are never inspected by them); the table is the list of its
  rows.  \<open>superbowl_config\<close> has the primary key \<open>id = 1\<close> with \<open>CHECK (id = 1)\<close>, so it
  holds at most one row: an option.
\<close>

record square =
  row_num :: int
  col_num :: int
  email :: string
  locked :: bool

text \<open>
  A JavaScript \<open>number[]\<close>: reading past the end gives \<open>undefined\<close> and writing
  past the end extends the array with holes, so an element is an \<open>int option\<close> with
  \<open>None\<close> for \<open>undefined\<close>.
\<close>

type_synonym jsarr = "int option list"

record config =
  row_sequence :: jsarr
  col_sequence :: jsarr

record db =
  superbowl_squares :: "square list"
  superbowl_config :: "config option"

section \<open>The sequence generator of \<open>squares/lock/route.ts\<close>\<close>

text \<open>
  \<open>Math.random()\<close> is a global source of numbers; it is modelled as an infinite
  sequence of reals with a cursor counting the draws made so far.
\<close>

record rng =
  rand :: "nat \<Rightarrow> real"
  cursor :: nat

definition Math_random :: "rng \<Rightarrow> real \<times> rng" where
  "Math_random g = (rand g (cursor g), g\<lparr>cursor := Suc (cursor g)\<rparr>)"

definition js_get :: "jsarr \<Rightarrow> int \<Rightarrow> int option" where
  "js_get a k = (if 0 \<le> k \<and> nat k < length a then a ! nat k else None)"

text \<open>
  \<open>arr[k] = v\<close>: an index inside the array overwrites, an index past the end
  extends the array, a negative index sets a property and leaves the elements alone.
\<close>

definition js_set :: "jsarr \<Rightarrow> int \<Rightarrow> int option \<Rightarrow> jsarr" where
  "js_set a k v =
     (if k < 0 then a
      else if nat k < length a then a[nat k := v]
      else a @ replicate (nat k - length a) None @ [v])"

text \<open>
  The loop \<open>for (let i = arr.length - 1; i > 0; i--)\<close>, by recursion on \<open>i\<close>.  The
  destructuring assignment reads \<open>arr[j]\<close> and \<open>arr[i]\<close> first and then writes
  \<open>arr[i]\<close> and \<open>arr[j]\<close> in that order.
\<close>

fun shuffle_loop :: "nat \<Rightarrow> jsarr \<Rightarrow> rng \<Rightarrow> jsarr \<times> rng" where
  "shuffle_loop 0 arr g = (arr, g)"
| "shuffle_loop (Suc n) arr g =
     (let i = int (Suc n);
          (r, g1) = Math_random g;
          j = \<lfloor>r * (of_int i + 1)\<rfloor>;
          x = js_get arr j;
          y = js_get arr i;
          arr1 = js_set (js_set arr i x) j y
      in shuffle_loop n arr1 g1)"

definition generateRandomSequence :: "rng \<Rightarrow> jsarr \<times> rng" where
  "generateRandomSequence g =
     (let arr = map Some [0, 1, 2, 3, 4, 5, 6, 7, 8, 9]
      in shuffle_loop (length arr - 1) arr g)"

subsection \<open>The shuffle as the specification words it\<close>

text \<open>
  For \<open>i\<close> from \<open>n\<close> down to 1, take the index \<open>J i\<close> and swap positions \<open>i\<close> and
  \<open>J i\<close>.
\<close>

definition swap :: "nat \<Rightarrow> nat \<Rightarrow> 'a list \<Rightarrow> 'a list" where
  "swap i j xs = xs[i := xs ! j, j := xs ! i]"

fun fisher_yates :: "nat \<Rightarrow> (nat \<Rightarrow> nat) \<Rightarrow> 'a list \<Rightarrow> 'a list" where
  "fisher_yates 0 J xs = xs"
| "fisher_yates (Suc n) J xs = fisher_yates n J (swap (Suc n) (J (Suc n)) xs)"



section \<open>The store\<close>

text \<open>
  Every call of the Supabase client answers with \<open>{ data, error }\<close>: a reply is
  \<open>Inl\<close> of the error or \<open>Inr\<close> of the data.  A query is a function of the
  database that returns its reply and the database it leaves behind.
\<close>

datatype store_error = Unreachable | UniqueViolation | CheckViolation | NotSingle

type_synonym 'a reply = "store_error + 'a"

type_synonym 'a query = "db \<Rightarrow> 'a reply \<times> db"

definition select_where :: "(square \<Rightarrow> bool) \<Rightarrow> square list query" where
  "select_where P d = (Inr (filter P (superbowl_squares d)), d)"

text \<open>\<open>.limit(n)\<close> keeps the first \<open>n\<close> rows of the answer.\<close>

definition limit :: "nat \<Rightarrow> 'a list query \<Rightarrow> 'a list query" where
  "limit n q d = (case q d of (Inr xs, d') \<Rightarrow> (Inr (take n xs), d') | (Inl e, d') \<Rightarrow> (Inl e, d'))"

text \<open>\<open>.single()\<close> answers with the row when there is exactly one and with an error otherwise.\<close>

definition single :: "'a list query \<Rightarrow> 'a query" where
  "single q d =
     (case q d of
        (Inr [x], d') \<Rightarrow> (Inr x, d')
      | (Inr _, d') \<Rightarrow> (Inl NotSingle, d')
      | (Inl e, d') \<Rightarrow> (Inl e, d'))"

text \<open>
  \<open>{ count: 'exact', head: true }\<close> answers with the number of matching rows.
\<close>

definition count_where :: "(square \<Rightarrow> bool) \<Rightarrow> nat query" where
  "count_where P d = (Inr (length (filter P (superbowl_squares d))), d)"

definition delete_where :: "(square \<Rightarrow> bool) \<Rightarrow> unit query" where
  "delete_where P d =
     (Inr (), d\<lparr>superbowl_squares := filter (\<lambda>s. \<not> P s) (superbowl_squares d)\<rparr>)"

definition update_where :: "(square \<Rightarrow> bool) \<Rightarrow> (square \<Rightarrow> square) \<Rightarrow> unit query" where
  "update_where P f d =
     (Inr (), d\<lparr>superbowl_squares := map (\<lambda>s. if P s then f s else s) (superbowl_squares d)\<rparr>)"

text \<open>
  An insert into \<open>superbowl_squares\<close> is refused by the two \<open>CHECK\<close> constraints
  and by \<open>UNIQUE(row_num, col_num)\<close>.
\<close>

definition insert_square :: "square \<Rightarrow> unit query" where
  "insert_square sq d =
     (if \<not> (0 \<le> row_num sq \<and> row_num sq \<le> 9 \<and> 0 \<le> col_num sq \<and> col_num sq \<le> 9)
      then (Inl CheckViolation, d)
      else if filter (\<lambda>s. row_num s = row_num sq \<and> col_num s = col_num sq) (superbowl_squares d) \<noteq> []
      then (Inl UniqueViolation, d)
      else (Inr (), d\<lparr>superbowl_squares := superbowl_squares d @ [sq]\<rparr>))"

definition select_config :: "config query" where
  "select_config d =
     (case superbowl_config d of None \<Rightarrow> (Inl NotSingle, d) | Some c \<Rightarrow> (Inr c, d))"

text \<open>
  The insert of the row with \<open>id: 1\<close>, followed by \<open>.select(...).single()\<close>: the primary
  key refuses it when the row exists, and the inserted row is the answer otherwise.
\<close>

definition insert_config :: "config \<Rightarrow> config query" where
  "insert_config c d =
     (case superbowl_config d of
        None \<Rightarrow> (Inr c, d\<lparr>superbowl_config := Some c\<rparr>)
      | Some _ \<Rightarrow> (Inl UniqueViolation, d))"

definition delete_config :: "unit query" where
  "delete_config d = (Inr (), d\<lparr>superbowl_config := None\<rparr>)"

subsection \<open>The world a request runs in\<close>

text \<open>
  The handlers hold no state of their own; between two of their store calls the
  statements of other requests may reach the store, and a call may fail to reach it.
  The environment lists, for the store calls of a run in order, what happens at each:
  \<open>Fault\<close> (the call fails and changes nothing) or \<open>Others ws\<close> (the statements \<open>ws\<close>
  of other requests are executed first, then the call).  An exhausted list means
  undisturbed calls.
\<close>

datatype stmt =
  InsertSquare square
| DeleteSquare int int string
| LockSquares string
| DeleteSquares string
| InsertConfig config
| DeleteConfig

fun apply_stmt :: "stmt \<Rightarrow> db \<Rightarrow> db" where
  "apply_stmt (InsertSquare sq) d = snd (insert_square sq d)"
| "apply_stmt (DeleteSquare r c u) d =
     snd (delete_where (\<lambda>s. row_num s = r \<and> col_num s = c \<and> email s = u) d)"
| "apply_stmt (LockSquares u) d =
     snd (update_where (\<lambda>s. email s = u) (\<lambda>s. s\<lparr>locked := True\<rparr>) d)"
| "apply_stmt (DeleteSquares u) d = snd (delete_where (\<lambda>s. email s = u) d)"
| "apply_stmt (InsertConfig c) d = snd (insert_config c d)"
| "apply_stmt DeleteConfig d = snd (delete_config d)"

datatype event = Fault | Others "stmt list"

record world =
  store :: db
  env :: "event list"
  random :: rng
  sms :: "(string \<times> nat) list"

text \<open>Whether the next store call fails, and what the store holds when it arrives.\<close>

definition faulty :: "event list \<Rightarrow> bool" where
  "faulty es = (case es of Fault # _ \<Rightarrow> True | _ \<Rightarrow> False)"

definition arrive :: "event list \<Rightarrow> db \<Rightarrow> db" where
  "arrive es d = (case es of Others ws # _ \<Rightarrow> fold apply_stmt ws d | _ \<Rightarrow> d)"

definition store_call :: "'a query \<Rightarrow> world \<Rightarrow> 'a reply \<times> world" where
  "store_call q w =
     (if faulty (env w) then (Inl Unreachable, w\<lparr>env := tl (env w)\<rparr>)
      else (case q (arrive (env w) (store w)) of
              (a, d) \<Rightarrow> (a, w\<lparr>store := d, env := tl (env w)\<rparr>)))"

text \<open>
  \<open>sendSquaresNotification\<close> catches every failure of its own and its result is
  ignored by the caller: the world records the notification that was requested.
\<close>

definition sendSquaresNotification :: "string \<Rightarrow> nat \<Rightarrow> world \<Rightarrow> world" where
  "sendSquaresNotification e n w = w\<lparr>sms := sms w @ [(e, n)]\<rparr>"

section \<open>The route handlers\<close>

text \<open>
  A field of a parsed JSON body.  Numbers are the integral ones (a fractional number
  passes the range test of the toggle route as well; what the store does with it is not
  modelled); \<open>JUndefined\<close> is an absent field.
\<close>

datatype jsval = JNum int | JStr string | JBool bool | JNull | JUndefined

text \<open>
  A response is the HTTP status with the JSON body.  The success body of the lock
  route carries the number of squares its message is rendered from
  (\<open>userSquares.length\<close>), the one of the admin route the address its message names.
\<close>

datatype body =
  Error string
| Grid "square list" "config option"
| Claimed int int string
| Released int int
| LockedIn nat "config option"
| UserLocked string

type_synonym response = "nat \<times> body"

subsection \<open>\<open>squares/route.ts\<close>\<close>

definition squares_GET :: "world \<Rightarrow> response \<times> world" where
  "squares_GET w =
     (case store_call (select_where (\<lambda>s. True)) w of (squaresResult, w1) \<Rightarrow>
      case store_call select_config w1 of (configResult, w2) \<Rightarrow>
        (case squaresResult of
           Inl e \<Rightarrow> ((500, Error ''Failed to fetch squares''), w2)
         | Inr squares \<Rightarrow>
             ((200, Grid squares (case configResult of Inr c \<Rightarrow> Some c | Inl e \<Rightarrow> None)), w2)))"

definition squares_POST :: "string option \<Rightarrow> jsval \<Rightarrow> jsval \<Rightarrow> world \<Rightarrow> response \<times> world" where
  "squares_POST user row col w =
     (case user of
        None \<Rightarrow> ((401, Error ''Not authenticated''), w)
      | Some u \<Rightarrow>
         (case (row, col) of
            (JNum r, JNum c) \<Rightarrow>
              if r < 0 \<or> r > 9 \<or> c < 0 \<or> c > 9
              then ((400, Error ''Invalid row or column''), w)
              else
               (case store_call (limit 1 (select_where (\<lambda>s. email s = u \<and> locked s = True))) w
                of (userSquares, w1) \<Rightarrow>
                  if (case userSquares of Inr xs \<Rightarrow> length xs > 0 | Inl e \<Rightarrow> False)
                  then ((403, Error ''You have already locked in your squares''), w1)
                  else
                   (case store_call (single (select_where (\<lambda>s. row_num s = r \<and> col_num s = c))) w1
                    of (existingSquare, w2) \<Rightarrow>
                     (case existingSquare of
                        Inr sq \<Rightarrow>
                          if email sq \<noteq> u
                          then ((403, Error ''Square is taken by another user''), w2)
                          else if locked sq
                          then ((403, Error ''Cannot modify locked squares''), w2)
                          else
                           (case store_call
                                   (delete_where (\<lambda>s. row_num s = r \<and> col_num s = c \<and> email s = u)) w2
                            of (deleted, w3) \<Rightarrow>
                              (case deleted of
                                 Inl e \<Rightarrow> ((500, Error ''Failed to release square''), w3)
                               | Inr _ \<Rightarrow> ((200, Released r c), w3)))
                      | Inl e \<Rightarrow>
                          (case store_call
                                  (insert_square
                                     \<lparr>row_num = r, col_num = c, email = u, locked = False\<rparr>) w2
                           of (inserted, w3) \<Rightarrow>
                             (case inserted of
                                Inl e \<Rightarrow> ((500, Error ''Failed to claim square''), w3)
                              | Inr _ \<Rightarrow> ((200, Claimed r c u), w3))))))
          | _ \<Rightarrow> ((400, Error ''Invalid row or column''), w)))"

subsection \<open>\<open>squares/lock/route.ts\<close>\<close>

definition lock_POST :: "string option \<Rightarrow> world \<Rightarrow> response \<times> world" where
  "lock_POST user w =
     (case user of
        None \<Rightarrow> ((401, Error ''Not authenticated''), w)
      | Some u \<Rightarrow>
         (case store_call (select_where (\<lambda>s. email s = u)) w of (fetched, w1) \<Rightarrow>
           (case fetched of
              Inl e \<Rightarrow> ((500, Error ''Failed to fetch your squares''), w1)
            | Inr userSquares \<Rightarrow>
                if length userSquares = 0
                then ((400, Error ''You have no squares to lock''), w1)
                else if list_ex locked userSquares
                then ((400, Error ''Your squares are already locked''), w1)
                else
                 (case store_call (update_where (\<lambda>s. email s = u) (\<lambda>s. s\<lparr>locked := True\<rparr>)) w1
                  of (updated, w2) \<Rightarrow>
                   (case updated of
                      Inl e \<Rightarrow> ((500, Error ''Failed to lock squares''), w2)
                    | Inr _ \<Rightarrow>
                       (case store_call (count_where (\<lambda>s. locked s = True))
                               (sendSquaresNotification u (length userSquares) w2)
                        of (lockedCount, w4) \<Rightarrow>
                          if lockedCount = Inr 100
                          then
                           (case store_call select_config w4 of (existingConfig, w5) \<Rightarrow>
                             (case existingConfig of
                                Inr c \<Rightarrow> ((200, LockedIn (length userSquares) (Some c)), w5)
                              | Inl e \<Rightarrow>
                                 (case generateRandomSequence (random w5) of (rowSequence, g1) \<Rightarrow>
                                  case generateRandomSequence g1 of (colSequence, g2) \<Rightarrow>
                                  case store_call
                                         (insert_config
                                            \<lparr>row_sequence = rowSequence, col_sequence = colSequence\<rparr>)
                                         (w5\<lparr>random := g2\<rparr>)
                                  of (newConfig, w6) \<Rightarrow>
                                    (case newConfig of
                                       Inl e \<Rightarrow> ((200, LockedIn (length userSquares) None), w6)
                                     | Inr c \<Rightarrow> ((200, LockedIn (length userSquares) (Some c)), w6)))))
                          else ((200, LockedIn (length userSquares) None), w4)))))))"

subsection \<open>\<open>admin/lock-user/route.ts\<close> and \<open>lib/simpleAuth.ts\<close>\<close>






subsection \<open>Sequences of core requests\<close>

datatype request =
  ListGrid
| Toggle "string option" jsval jsval
| LockIn "string option"

fun handle :: "request \<Rightarrow> world \<Rightarrow> response \<times> world" where
  "handle ListGrid w = squares_GET w"
| "handle (Toggle user row col) w = squares_POST user row col w"
| "handle (LockIn user) w = lock_POST user w"

fun serve :: "request list \<Rightarrow> world \<Rightarrow> response list \<times> world" where
  "serve [] w = ([], w)"
| "serve (rq # rqs) w =
     (case handle rq w of (resp, w1) \<Rightarrow>
      case serve rqs w1 of (resps, w2) \<Rightarrow> (resp # resps, w2))"

subsection \<open>Notions used by the statements\<close>

definition coord :: "square \<Rightarrow> int \<times> int" where
  "coord s = (row_num s, col_num s)"

text \<open>The constraint \<open>UNIQUE(row_num, col_num)\<close> as a property of the table.\<close>

definition unique_coords :: "db \<Rightarrow> bool" where
  "unique_coords d = distinct (map coord (superbowl_squares d))"

definition cell_at :: "db \<Rightarrow> int \<Rightarrow> int \<Rightarrow> square option" where
  "cell_at d r c = find (\<lambda>s. row_num s = r \<and> col_num s = c) (superbowl_squares d)"

text \<open>The rows at a coordinate, as the existence query of the toggle selects them.\<close>

definition at_rc :: "int \<Rightarrow> int \<Rightarrow> db \<Rightarrow> square list" where
  "at_rc r c d = filter (\<lambda>s. row_num s = r \<and> col_num s = c) (superbowl_squares d)"

definition owned_by :: "string \<Rightarrow> db \<Rightarrow> square list" where
  "owned_by u d = filter (\<lambda>s. email s = u) (superbowl_squares d)"

definition isLocked :: "string \<Rightarrow> db \<Rightarrow> bool" where
  "isLocked u d = list_ex locked (owned_by u d)"

definition countLocked :: "db \<Rightarrow> nat" where
  "countLocked d = length (filter locked (superbowl_squares d))"

definition lockAllOwnedBy :: "string \<Rightarrow> square list \<Rightarrow> square list" where
  "lockAllOwnedBy u xs = map (\<lambda>s. if email s = u then s\<lparr>locked := True\<rparr> else s) xs"

text \<open>No statement of another request is interleaved: each call is undisturbed or fails.\<close>

definition calm :: "event list \<Rightarrow> bool" where
  "calm es = list_all (\<lambda>e. e = Fault \<or> e = Others []) es"

text \<open>The store after the bulk update of the lock route.\<close>

definition locked_store :: "string \<Rightarrow> db \<Rightarrow> db" where
  "locked_store u d = d\<lparr>superbowl_squares := lockAllOwnedBy u (superbowl_squares d)\<rparr>"

text \<open>The pair of sequences the lock route generates from the random source \<open>g\<close>.\<close>

definition fresh_config :: "rng \<Rightarrow> config" where
  "fresh_config g =
     \<lparr>row_sequence = fst (generateRandomSequence g),
      col_sequence = fst (generateRandomSequence (snd (generateRandomSequence g)))\<rparr>"


subsection \<open>Concrete worlds\<close>

definition world0 :: "db \<Rightarrow> event list \<Rightarrow> world" where
  "world0 d es = \<lparr>store = d, env = es, random = \<lparr>rand = (\<lambda>_. 0), cursor = 0\<rparr>, sms = []\<rparr>"

definition cell :: "int \<Rightarrow> int \<Rightarrow> string \<Rightarrow> bool \<Rightarrow> square" where
  "cell r c u l = \<lparr>row_num = r, col_num = c, email = u, locked = l\<rparr>"

definition three_cells :: db where
  "three_cells =
     \<lparr>superbowl_squares = [cell 0 0 ''a'' False, cell 0 1 ''b'' False, cell 5 5 ''a'' False],
      superbowl_config = None\<rparr>"

text \<open>The world after participant \<open>a\<close> has locked in on \<open>three_cells\<close>.\<close>

definition after_lock :: world where
  "after_lock =
     \<lparr>store = \<lparr>superbowl_squares =
                 [cell 0 0 ''a'' True, cell 0 1 ''b'' False, cell 5 5 ''a'' True],
               superbowl_config = None\<rparr>,
      env = [], random = \<lparr>rand = (\<lambda>_. 0), cursor = 0\<rparr>, sms = [(''a'', 2)]\<rparr>"

text \<open>
  An empty grid on which, before the third store call of the running request, the
  insert of participant \<open>b\<close> for the cell (3, 4) reaches the store.
\<close>

definition race_world :: world where
  "race_world =
     world0 \<lparr>superbowl_squares = [], superbowl_config = None\<rparr>
       [Others [], Others [], Others [InsertSquare (cell 3 4 ''b'' False)]]"



section \<open>Properties of the sequence generator\<close>




lemma length_swap [simp]: "length (swap i j xs) = length xs"
  by (simp add: swap_def)


lemma length_fisher_yates [simp]: "length (fisher_yates n J xs) = length xs"
  by (induction n arbitrary: xs) simp_all









section \<open>Store calls\<close>

lemma faulty_Nil [simp]: "\<not> faulty []"
  by (simp add: faulty_def)

lemma arrive_Nil [simp]: "arrive [] d = d"
  by (simp add: arrive_def)

lemma calm_Nil [simp]: "calm []"
  by (simp add: calm_def)

lemma calm_tl [simp]: "calm es \<Longrightarrow> calm (tl es)"
  by (cases es) (simp_all add: calm_def)

lemma arrive_calm [simp]: "calm es \<Longrightarrow> arrive es d = d"
  by (cases es) (auto simp: calm_def arrive_def)


lemma store_call_calm:
  "calm (env w) \<Longrightarrow>
     store_call q w =
       (if faulty (env w) then (Inl Unreachable, w\<lparr>env := tl (env w)\<rparr>)
        else (fst (q (store w)), w\<lparr>store := snd (q (store w)), env := tl (env w)\<rparr>))"
  by (simp add: store_call_def split: prod.splits)

lemma snd_select_where [simp]: "snd (select_where P d) = d"
  by (simp add: select_where_def)

lemma snd_count_where [simp]: "snd (count_where P d) = d"
  by (simp add: count_where_def)

lemma snd_select_config [simp]: "snd (select_config d) = d"
  by (simp add: select_config_def split: option.splits)

lemma snd_limit [simp]: "snd (limit n q d) = snd (q d)"
  by (simp add: limit_def split: prod.splits sum.splits)

lemma snd_single [simp]: "snd (single q d) = snd (q d)"
  by (simp add: single_def split: prod.splits sum.splits list.splits)

lemmas query_defs = select_where_def limit_def single_def count_where_def delete_where_def
  update_where_def insert_square_def select_config_def insert_config_def

lemmas eval_defs = world0_def cell_def three_cells_def owned_by_def isLocked_def countLocked_def
  locked_store_def lockAllOwnedBy_def coord_def

section \<open>The lock route\<close>


lemma map_coord_lockAll [simp]: "map coord (lockAllOwnedBy u xs) = map coord xs"
  by (induction xs) (simp_all add: lockAllOwnedBy_def coord_def)

lemma map_email_lockAll [simp]: "map email (lockAllOwnedBy u xs) = map email xs"
  by (induction xs) (simp_all add: lockAllOwnedBy_def)

lemma others_lockAll:
  "filter (\<lambda>s. email s \<noteq> u) (lockAllOwnedBy u xs) = filter (\<lambda>s. email s \<noteq> u) xs"
  by (induction xs) (simp_all add: lockAllOwnedBy_def)

lemma own_lockAll:
  "filter (\<lambda>s. email s = u) (lockAllOwnedBy u xs) =
     map (\<lambda>s. s\<lparr>locked := True\<rparr>) (filter (\<lambda>s. email s = u) xs)"
  by (induction xs) (simp_all add: lockAllOwnedBy_def)



lemma lock_POST_calm_nf:
  assumes "calm (env w)"
  shows "lock_POST (Some u) w =
    (if faulty (env w) then ((500, Error ''Failed to fetch your squares''), w\<lparr>env := tl (env w)\<rparr>)
     else if owned_by u (store w) = []
     then ((400, Error ''You have no squares to lock''), w\<lparr>env := tl (env w)\<rparr>)
     else if isLocked u (store w)
     then ((400, Error ''Your squares are already locked''), w\<lparr>env := tl (env w)\<rparr>)
     else if faulty (tl (env w))
     then ((500, Error ''Failed to lock squares''), w\<lparr>env := tl (tl (env w))\<rparr>)
     else if faulty (tl (tl (env w))) \<or> countLocked (locked_store u (store w)) \<noteq> 100
     then ((200, LockedIn (length (owned_by u (store w))) None),
           w\<lparr>store := locked_store u (store w), env := tl (tl (tl (env w))),
              sms := sms w @ [(u, length (owned_by u (store w)))]\<rparr>)
     else if \<not> faulty (tl (tl (tl (env w)))) \<and> superbowl_config (store w) \<noteq> None
     then ((200, LockedIn (length (owned_by u (store w))) (superbowl_config (store w))),
           w\<lparr>store := locked_store u (store w), env := tl (tl (tl (tl (env w)))),
              sms := sms w @ [(u, length (owned_by u (store w)))]\<rparr>)
     else if faulty (tl (tl (tl (tl (env w))))) \<or> superbowl_config (store w) \<noteq> None
     then ((200, LockedIn (length (owned_by u (store w))) None),
           w\<lparr>store := locked_store u (store w), env := tl (tl (tl (tl (tl (env w))))),
              random := snd (generateRandomSequence (snd (generateRandomSequence (random w)))),
              sms := sms w @ [(u, length (owned_by u (store w)))]\<rparr>)
     else ((200, LockedIn (length (owned_by u (store w))) (Some (fresh_config (random w)))),
           w\<lparr>store := (locked_store u (store w))
                         \<lparr>superbowl_config := Some (fresh_config (random w))\<rparr>,
              env := tl (tl (tl (tl (tl (env w))))),
              random := snd (generateRandomSequence (snd (generateRandomSequence (random w)))),
              sms := sms w @ [(u, length (owned_by u (store w)))]\<rparr>))"
  using assms
  by (simp add: lock_POST_def store_call_calm sendSquaresNotification_def query_defs
        owned_by_def isLocked_def lockAllOwnedBy_def countLocked_def locked_store_def
        fresh_config_def
      split: prod.splits sum.splits option.splits)

lemma lock_POST_quiet:
  assumes "env w = []"
  shows "lock_POST (Some u) w =
    (if owned_by u (store w) = [] then ((400, Error ''You have no squares to lock''), w)
     else if isLocked u (store w) then ((400, Error ''Your squares are already locked''), w)
     else if countLocked (locked_store u (store w)) \<noteq> 100
     then ((200, LockedIn (length (owned_by u (store w))) None),
           w\<lparr>store := locked_store u (store w),
              sms := sms w @ [(u, length (owned_by u (store w)))]\<rparr>)
     else (case superbowl_config (store w) of
             Some c \<Rightarrow>
               ((200, LockedIn (length (owned_by u (store w))) (Some c)),
                w\<lparr>store := locked_store u (store w),
                   sms := sms w @ [(u, length (owned_by u (store w)))]\<rparr>)
           | None \<Rightarrow>
               ((200, LockedIn (length (owned_by u (store w))) (Some (fresh_config (random w)))),
                w\<lparr>store := (locked_store u (store w))
                              \<lparr>superbowl_config := Some (fresh_config (random w))\<rparr>,
                   random := snd (generateRandomSequence (snd (generateRandomSequence (random w)))),
                   sms := sms w @ [(u, length (owned_by u (store w)))]\<rparr>)))"
proof -
  have "calm (env w)" using assms by simp
  then show ?thesis using assms by (simp add: lock_POST_calm_nf split: option.splits)
qed

section \<open>The toggle route\<close>

lemma limit_select:
  "limit n (select_where P) d = (Inr (take n (filter P (superbowl_squares d))), d)"
  by (simp add: limit_def select_where_def)

lemma single_select:
  "single (select_where P) d =
     (if length (filter P (superbowl_squares d)) = 1
      then Inr (hd (filter P (superbowl_squares d))) else Inl NotSingle, d)"
  by (cases "filter P (superbowl_squares d)"; cases "tl (filter P (superbowl_squares d))")
     (simp_all add: single_def select_where_def)

lemma guard_isLocked:
  "(filter (\<lambda>s. email s = u \<and> locked s) (superbowl_squares d) \<noteq> []) = isLocked u d"
  by (auto simp: isLocked_def owned_by_def list_ex_iff filter_empty_conv)

lemma squares_POST_calm_nf:
  assumes "calm (env w)" "0 \<le> r" "r \<le> 9" "0 \<le> c" "c \<le> 9"
  shows "squares_POST (Some u) (JNum r) (JNum c) w =
    (if \<not> faulty (env w) \<and> isLocked u (store w)
     then ((403, Error ''You have already locked in your squares''), w\<lparr>env := tl (env w)\<rparr>)
     else if \<not> faulty (tl (env w)) \<and> length (at_rc r c (store w)) = 1
     then (if email (hd (at_rc r c (store w))) \<noteq> u
           then ((403, Error ''Square is taken by another user''), w\<lparr>env := tl (tl (env w))\<rparr>)
           else if locked (hd (at_rc r c (store w)))
           then ((403, Error ''Cannot modify locked squares''), w\<lparr>env := tl (tl (env w))\<rparr>)
           else if faulty (tl (tl (env w)))
           then ((500, Error ''Failed to release square''), w\<lparr>env := tl (tl (tl (env w)))\<rparr>)
           else ((200, Released r c),
                 w\<lparr>store := (store w)\<lparr>superbowl_squares :=
                        filter (\<lambda>s. \<not> (row_num s = r \<and> col_num s = c \<and> email s = u))
                          (superbowl_squares (store w))\<rparr>,
                    env := tl (tl (tl (env w)))\<rparr>))
     else if faulty (tl (tl (env w))) \<or> at_rc r c (store w) \<noteq> []
     then ((500, Error ''Failed to claim square''), w\<lparr>env := tl (tl (tl (env w)))\<rparr>)
     else ((200, Claimed r c u),
           w\<lparr>store := (store w)\<lparr>superbowl_squares := superbowl_squares (store w) @
                    [\<lparr>row_num = r, col_num = c, email = u, locked = False\<rparr>]\<rparr>,
              env := tl (tl (tl (env w)))\<rparr>))"
  using assms
  by (simp add: squares_POST_def store_call_calm limit_select single_select guard_isLocked
        delete_where_def insert_square_def at_rc_def)

lemma squares_POST_quiet:
  assumes "env w = []" "0 \<le> r" "r \<le> 9" "0 \<le> c" "c \<le> 9"
  shows "squares_POST (Some u) (JNum r) (JNum c) w =
    (if isLocked u (store w)
     then ((403, Error ''You have already locked in your squares''), w)
     else if length (at_rc r c (store w)) = 1
     then (if email (hd (at_rc r c (store w))) \<noteq> u
           then ((403, Error ''Square is taken by another user''), w)
           else if locked (hd (at_rc r c (store w)))
           then ((403, Error ''Cannot modify locked squares''), w)
           else ((200, Released r c),
                 w\<lparr>store := (store w)\<lparr>superbowl_squares :=
                        filter (\<lambda>s. \<not> (row_num s = r \<and> col_num s = c \<and> email s = u))
                          (superbowl_squares (store w))\<rparr>\<rparr>))
     else if at_rc r c (store w) \<noteq> []
     then ((500, Error ''Failed to claim square''), w)
     else ((200, Claimed r c u),
           w\<lparr>store := (store w)\<lparr>superbowl_squares := superbowl_squares (store w) @
                    [\<lparr>row_num = r, col_num = c, email = u, locked = False\<rparr>]\<rparr>\<rparr>))"
proof -
  have "calm (env w)" using assms(1) by simp
  from squares_POST_calm_nf [OF this assms(2-5)] show ?thesis using assms(1) by simp
qed

lemma squares_POST_out_of_range:
  "r < 0 \<or> r > 9 \<or> c < 0 \<or> c > 9 \<Longrightarrow>
     squares_POST (Some u) (JNum r) (JNum c) w = ((400, Error ''Invalid row or column''), w)"
  by (simp add: squares_POST_def)

lemma squares_POST_not_num:
  "\<not> (\<exists>r c. row = JNum r \<and> col = JNum c) \<Longrightarrow>
     squares_POST (Some u) row col w = ((400, Error ''Invalid row or column''), w)"
  by (cases row; cases col) (simp_all add: squares_POST_def)

lemma squares_POST_None: "squares_POST None row col w = ((401, Error ''Not authenticated''), w)"
  by (simp add: squares_POST_def)


section \<open>Lock-in\<close>

lemma isLocked_owned: "isLocked u d \<Longrightarrow> owned_by u d \<noteq> []"
  by (auto simp: isLocked_def)

lemma lock_POST_calm:
  assumes "calm (env w)" "lock_POST (Some u) w = (resp, w')"
  shows "(fst resp \<noteq> 200 \<and> store w' = store w)
         \<or> (fst resp = 200 \<and> owned_by u (store w) \<noteq> [] \<and> \<not> isLocked u (store w)
             \<and> superbowl_squares (store w') = lockAllOwnedBy u (superbowl_squares (store w)))"
  using assms(2) unfolding lock_POST_calm_nf [OF assms(1)]
  by (auto simp: locked_store_def split: if_splits)

text \<open>
  C4.  In an undisturbed run \<open>lock_POST\<close> answers 400 and leaves the world as it was
  when the participant owns no cell, and when one of the participant's cells is already
  locked; otherwise it answers 200 and the table is the old one with \<open>locked\<close> set on
  every row of the participant.  The update is one store call: also when store calls
  fail, the table afterwards is either the old one or the one with all of the
  participant's rows locked.
\<close>

theorem lock_POST_guards:
  "(env w = [] \<and> owned_by u (store w) = [] \<longrightarrow>
      lock_POST (Some u) w = ((400, Error ''You have no squares to lock''), w))
   \<and> (env w = [] \<and> isLocked u (store w) \<longrightarrow>
      lock_POST (Some u) w = ((400, Error ''Your squares are already locked''), w))
   \<and> (env w = [] \<and> owned_by u (store w) \<noteq> [] \<and> \<not> isLocked u (store w) \<longrightarrow>
      fst (fst (lock_POST (Some u) w)) = 200
      \<and> superbowl_squares (store (snd (lock_POST (Some u) w))) =
          lockAllOwnedBy u (superbowl_squares (store w)))
   \<and> (calm (env w) \<longrightarrow>
      superbowl_squares (store (snd (lock_POST (Some u) w))) = superbowl_squares (store w)
      \<or> superbowl_squares (store (snd (lock_POST (Some u) w))) =
          lockAllOwnedBy u (superbowl_squares (store w)))"
proof -
  have a: "env w = [] \<Longrightarrow> owned_by u (store w) = [] \<Longrightarrow>
      lock_POST (Some u) w = ((400, Error ''You have no squares to lock''), w)"
    by (simp add: lock_POST_quiet)
  have b: "env w = [] \<Longrightarrow> isLocked u (store w) \<Longrightarrow>
      lock_POST (Some u) w = ((400, Error ''Your squares are already locked''), w)"
    using isLocked_owned [of u "store w"] by (simp add: lock_POST_quiet)
  have c: "env w = [] \<Longrightarrow> owned_by u (store w) \<noteq> [] \<Longrightarrow> \<not> isLocked u (store w) \<Longrightarrow>
      fst (fst (lock_POST (Some u) w)) = 200
      \<and> superbowl_squares (store (snd (lock_POST (Some u) w))) =
          lockAllOwnedBy u (superbowl_squares (store w))"
    by (simp add: lock_POST_quiet locked_store_def split: option.splits)
  have d: "calm (env w) \<Longrightarrow>
      superbowl_squares (store (snd (lock_POST (Some u) w))) = superbowl_squares (store w)
      \<or> superbowl_squares (store (snd (lock_POST (Some u) w))) =
          lockAllOwnedBy u (superbowl_squares (store w))"
    using lock_POST_calm [of w u "fst (lock_POST (Some u) w)" "snd (lock_POST (Some u) w)"]
    by auto
  show ?thesis using a b c d by blast
qed

theorem lock_POST_guards_witness:
  "lock_POST (Some ''c'') (world0 three_cells []) =
     ((400, Error ''You have no squares to lock''), world0 three_cells [])
   \<and> lock_POST (Some ''a'')
        (world0 \<lparr>superbowl_squares = [cell 0 0 ''a'' True], superbowl_config = None\<rparr> []) =
     ((400, Error ''Your squares are already locked''),
      world0 \<lparr>superbowl_squares = [cell 0 0 ''a'' True], superbowl_config = None\<rparr> [])
   \<and> fst (fst (lock_POST (Some ''a'') (world0 three_cells []))) = 200
   \<and> superbowl_squares (store (snd (lock_POST (Some ''a'') (world0 three_cells [])))) =
       [cell 0 0 ''a'' True, cell 0 1 ''b'' False, cell 5 5 ''a'' True]"
proof -
  let ?w1 = "world0 three_cells []"
  let ?w2 = "world0 \<lparr>superbowl_squares = [cell 0 0 ''a'' True], superbowl_config = None\<rparr> []"
  from lock_POST_guards [of ?w1 "''c''"] lock_POST_guards [of ?w2 "''a''"]
    lock_POST_guards [of ?w1 "''a''"]
  show ?thesis by (simp add: eval_defs)
qed

text \<open>
  C9.  When \<open>lock_POST\<close> answers 200 (store calls may have failed on the way, none of
  another request is interleaved), the table afterwards has the same rows at the same
  coordinates with the same owners: no row is created or deleted and no owner changes.
  The rows of the other participants are exactly as before, and the rows of the caller
  are the old ones with \<open>locked\<close> set.
\<close>

theorem lock_POST_frame:
  assumes "calm (env w)" and "lock_POST (Some u) w = ((200, b), w')"
  shows "superbowl_squares (store w') = lockAllOwnedBy u (superbowl_squares (store w))
         \<and> map coord (superbowl_squares (store w')) = map coord (superbowl_squares (store w))
         \<and> map email (superbowl_squares (store w')) = map email (superbowl_squares (store w))
         \<and> filter (\<lambda>s. email s \<noteq> u) (superbowl_squares (store w')) =
             filter (\<lambda>s. email s \<noteq> u) (superbowl_squares (store w))
         \<and> owned_by u (store w') = map (\<lambda>s. s\<lparr>locked := True\<rparr>) (owned_by u (store w))"
proof -
  from lock_POST_calm [OF assms] have
    sq: "superbowl_squares (store w') = lockAllOwnedBy u (superbowl_squares (store w))"
    by simp
  show ?thesis unfolding owned_by_def sq by (simp add: others_lockAll own_lockAll)
qed

lemma lock_three:
  "lock_POST (Some ''a'') (world0 three_cells []) =
     ((200, LockedIn 2 None),
      \<lparr>store = \<lparr>superbowl_squares =
                  [cell 0 0 ''a'' True, cell 0 1 ''b'' False, cell 5 5 ''a'' True],
                superbowl_config = None\<rparr>,
       env = [], random = \<lparr>rand = (\<lambda>_. 0), cursor = 0\<rparr>, sms = [(''a'', 2)]\<rparr>)"
  by (simp add: lock_POST_quiet eval_defs)

theorem lock_POST_frame_witness:
  "calm (env (world0 three_cells []))
   \<and> lock_POST (Some ''a'') (world0 three_cells []) =
     ((200, LockedIn 2 None),
      \<lparr>store = \<lparr>superbowl_squares =
                  [cell 0 0 ''a'' True, cell 0 1 ''b'' False, cell 5 5 ''a'' True],
                superbowl_config = None\<rparr>,
       env = [], random = \<lparr>rand = (\<lambda>_. 0), cursor = 0\<rparr>, sms = [(''a'', 2)]\<rparr>)
   \<and> map coord [cell 0 0 ''a'' True, cell 0 1 ''b'' False, cell 5 5 ''a'' True] =
       map coord (superbowl_squares three_cells)
   \<and> filter (\<lambda>s. email s \<noteq> ''a'')
        [cell 0 0 ''a'' True, cell 0 1 ''b'' False, cell 5 5 ''a'' True] =
       filter (\<lambda>s. email s \<noteq> ''a'') (superbowl_squares three_cells)"
proof -
  have c: "calm (env (world0 three_cells []))" by (simp add: world0_def)
  from lock_POST_frame [OF c lock_three] show ?thesis
    using c lock_three by (simp add: eval_defs)
qed

section \<open>The administrative lock\<close>











section \<open>Generation of the sequences\<close>

lemma squares_POST_keeps_config:
  assumes "calm (env w)" "squares_POST user row col w = (resp, w')"
  shows "calm (env w') \<and> superbowl_config (store w') = superbowl_config (store w)"
proof (cases user)
  case None
  then show ?thesis using assms by (simp add: squares_POST_None)
next
  case (Some u)
  show ?thesis
  proof (cases "\<exists>r c. row = JNum r \<and> col = JNum c")
    case False
    then show ?thesis using assms Some by (simp add: squares_POST_not_num)
  next
    case True
    then obtain r c where rc: "row = JNum r" "col = JNum c" by blast
    show ?thesis
    proof (cases "r < 0 \<or> r > 9 \<or> c < 0 \<or> c > 9")
      case True
      then show ?thesis using assms Some rc by (simp add: squares_POST_out_of_range)
    next
      case False
      then have "0 \<le> r" "r \<le> 9" "0 \<le> c" "c \<le> 9" by simp_all
      from squares_POST_calm_nf [OF assms(1) this, of u] assms(2) show ?thesis
        using assms(1) unfolding Some rc by (auto split: if_splits)
    qed
  qed
qed













section \<open>Claim and release\<close>

lemma find_filter_hd:
  "find P xs = (case filter P xs of [] \<Rightarrow> None | x # _ \<Rightarrow> Some x)"
  by (induction xs) simp_all

lemma cell_at_at_rc:
  "cell_at d r c = (case at_rc r c d of [] \<Rightarrow> None | x # _ \<Rightarrow> Some x)"
  unfolding cell_at_def at_rc_def by (rule find_filter_hd)

lemma filter_key_unique:
  "distinct (map f xs) \<Longrightarrow> length (filter (\<lambda>s. f s = k) xs) \<le> 1"
  by (induction xs) (auto simp: filter_empty_conv image_iff)

lemma at_rc_coord: "at_rc r c d = filter (\<lambda>s. coord s = (r, c)) (superbowl_squares d)"
  by (simp add: at_rc_def coord_def)

lemma at_rc_unique: "unique_coords d \<Longrightarrow> length (at_rc r c d) \<le> 1"
  unfolding at_rc_coord unique_coords_def by (rule filter_key_unique)

text \<open>
  The uniqueness constraint is an invariant of the table: every statement the routes
  issue keeps it.
\<close>

lemma insert_square_unique:
  "unique_coords d \<Longrightarrow> unique_coords (snd (insert_square sq d))"
  by (auto simp: insert_square_def unique_coords_def coord_def filter_empty_conv)

lemma delete_where_unique:
  "unique_coords d \<Longrightarrow> unique_coords (snd (delete_where P d))"
  by (simp add: delete_where_def unique_coords_def distinct_map_filter)

lemma update_where_unique:
  "unique_coords d \<Longrightarrow>
     unique_coords (snd (update_where P (\<lambda>s. s\<lparr>locked := True\<rparr>) d))"
proof -
  have m: "map (coord \<circ> (\<lambda>s. if P s then s\<lparr>locked := True\<rparr> else s)) xs = map coord xs"
    for xs
    by (induction xs) (simp_all add: coord_def)
  assume "unique_coords d"
  then show ?thesis by (simp add: update_where_def unique_coords_def m)
qed

lemma apply_stmt_unique: "unique_coords d \<Longrightarrow> unique_coords (apply_stmt st d)"
  by (cases st)
     (simp_all add: insert_square_unique delete_where_unique update_where_unique,
      simp_all add: unique_coords_def insert_config_def delete_config_def split: option.splits)

lemma at_rc_Some:
  assumes "unique_coords d" "cell_at d r c = Some s"
  shows "at_rc r c d = [s]"
proof -
  from assms(2) obtain ys where "at_rc r c d = s # ys"
    by (auto simp: cell_at_at_rc split: list.splits)
  moreover have "length (at_rc r c d) \<le> 1" using assms(1) by (rule at_rc_unique)
  ultimately show ?thesis by simp
qed

lemma at_rc_None: "cell_at d r c = None \<Longrightarrow> at_rc r c d = []"
  by (simp add: cell_at_at_rc split: list.splits)

lemma delete_single:
  "filter P xs = [s] \<Longrightarrow> Q s \<Longrightarrow> filter (\<lambda>x. \<not> (P x \<and> Q x)) xs = remove1 s xs"
proof (induction xs)
  case Nil
  then show ?case by simp
next
  case (Cons x xs)
  show ?case
  proof (cases "P x")
    case True
    with Cons.prems(1) have x: "x = s" and none: "filter P xs = []" by simp_all
    from none have "filter (\<lambda>x. \<not> (P x \<and> Q x)) xs = xs"
      by (auto simp: filter_empty_conv filter_id_conv)
    then show ?thesis using True x Cons.prems(2) by simp
  next
    case False
    with Cons.prems(1) have f: "filter P xs = [s]" by simp
    then have "s \<in> set (filter P xs)" by simp
    then have "P s" by simp
    with False have "x \<noteq> s" by auto
    then show ?thesis using False Cons.IH [OF f Cons.prems(2)] by simp
  qed
qed

lemma release_single:
  assumes "at_rc r c d = [s]" "email s = u"
  shows "filter (\<lambda>x. \<not> (row_num x = r \<and> col_num x = c \<and> email x = u)) (superbowl_squares d) =
           remove1 s (superbowl_squares d)"
  using delete_single [of "\<lambda>x. row_num x = r \<and> col_num x = c" "superbowl_squares d" s
      "\<lambda>x. email x = u"] assms
  by (simp add: at_rc_def)

text \<open>
  C1.  For an authenticated participant and a coordinate in range, in a run whose store
  calls all answer, on a table that satisfies its uniqueness constraint: when the
  participant has no locked cell and the cell is not owned, the row
  \<open>(row, col, participant, locked = false)\<close> is appended and the answer is \<open>claimed\<close>;
  when the participant has no locked cell and owns the cell unlocked, exactly that row
  is removed and the answer is \<open>released\<close>; when another participant owns the cell, or
  the participant owns it locked, the answer has status 403 and the world is unchanged.
\<close>

theorem squares_POST_toggle:
  assumes "env w = []" and "unique_coords (store w)"
    and "0 \<le> r" "r \<le> 9" "0 \<le> c" "c \<le> 9"
  shows "(\<not> isLocked u (store w) \<and> cell_at (store w) r c = None \<longrightarrow>
            squares_POST (Some u) (JNum r) (JNum c) w =
              ((200, Claimed r c u),
               w\<lparr>store := (store w)\<lparr>superbowl_squares := superbowl_squares (store w) @
                    [\<lparr>row_num = r, col_num = c, email = u, locked = False\<rparr>]\<rparr>\<rparr>))
         \<and> (\<forall>s. \<not> isLocked u (store w) \<and> cell_at (store w) r c = Some s
                \<and> email s = u \<and> \<not> locked s \<longrightarrow>
            squares_POST (Some u) (JNum r) (JNum c) w =
              ((200, Released r c),
               w\<lparr>store := (store w)\<lparr>superbowl_squares :=
                    remove1 s (superbowl_squares (store w))\<rparr>\<rparr>))
         \<and> (\<forall>s. cell_at (store w) r c = Some s \<and> email s \<noteq> u \<longrightarrow>
            fst (fst (squares_POST (Some u) (JNum r) (JNum c) w)) = 403
            \<and> snd (squares_POST (Some u) (JNum r) (JNum c) w) = w)
         \<and> (\<forall>s. cell_at (store w) r c = Some s \<and> email s = u \<and> locked s \<longrightarrow>
            fst (fst (squares_POST (Some u) (JNum r) (JNum c) w)) = 403
            \<and> snd (squares_POST (Some u) (JNum r) (JNum c) w) = w)"
proof -
  note nf = squares_POST_quiet [OF assms(1,3-6), of u]
  have a: "\<not> isLocked u (store w) \<Longrightarrow> cell_at (store w) r c = None \<Longrightarrow>
            squares_POST (Some u) (JNum r) (JNum c) w =
              ((200, Claimed r c u),
               w\<lparr>store := (store w)\<lparr>superbowl_squares := superbowl_squares (store w) @
                    [\<lparr>row_num = r, col_num = c, email = u, locked = False\<rparr>]\<rparr>\<rparr>)"
    using at_rc_None [of "store w" r c] by (simp add: nf)
  have b: "\<not> isLocked u (store w) \<Longrightarrow> cell_at (store w) r c = Some s \<Longrightarrow>
             email s = u \<Longrightarrow> \<not> locked s \<Longrightarrow>
            squares_POST (Some u) (JNum r) (JNum c) w =
              ((200, Released r c),
               w\<lparr>store := (store w)\<lparr>superbowl_squares :=
                    remove1 s (superbowl_squares (store w))\<rparr>\<rparr>)" for s
    using at_rc_Some [OF assms(2), of r c s] release_single [of r c "store w" s u]
    by (simp add: nf)
  have c: "cell_at (store w) r c = Some s \<Longrightarrow> email s \<noteq> u \<Longrightarrow>
            fst (fst (squares_POST (Some u) (JNum r) (JNum c) w)) = 403
            \<and> snd (squares_POST (Some u) (JNum r) (JNum c) w) = w" for s
    using at_rc_Some [OF assms(2), of r c s] by (simp add: nf)
  have d: "cell_at (store w) r c = Some s \<Longrightarrow> email s = u \<Longrightarrow> locked s \<Longrightarrow>
            fst (fst (squares_POST (Some u) (JNum r) (JNum c) w)) = 403
            \<and> snd (squares_POST (Some u) (JNum r) (JNum c) w) = w" for s
    using at_rc_Some [OF assms(2), of r c s] by (simp add: nf)
  show ?thesis using a b c d by blast
qed

theorem squares_POST_toggle_witness:
  "squares_POST (Some ''c'') (JNum 1) (JNum 1) (world0 three_cells []) =
     ((200, Claimed 1 1 ''c''),
      world0 \<lparr>superbowl_squares =
                [cell 0 0 ''a'' False, cell 0 1 ''b'' False, cell 5 5 ''a'' False,
                 cell 1 1 ''c'' False],
              superbowl_config = None\<rparr> [])
   \<and> squares_POST (Some ''a'') (JNum 0) (JNum 0) (world0 three_cells []) =
     ((200, Released 0 0),
      world0 \<lparr>superbowl_squares = [cell 0 1 ''b'' False, cell 5 5 ''a'' False],
              superbowl_config = None\<rparr> [])
   \<and> fst (fst (squares_POST (Some ''b'') (JNum 0) (JNum 0) (world0 three_cells []))) = 403
   \<and> snd (squares_POST (Some ''b'') (JNum 0) (JNum 0) (world0 three_cells [])) =
       world0 three_cells []
   \<and> fst (fst (squares_POST (Some ''a'') (JNum 2) (JNum 2)
        (world0 \<lparr>superbowl_squares = [cell 2 2 ''a'' True], superbowl_config = None\<rparr> []))) = 403
   \<and> snd (squares_POST (Some ''a'') (JNum 2) (JNum 2)
        (world0 \<lparr>superbowl_squares = [cell 2 2 ''a'' True], superbowl_config = None\<rparr> [])) =
       world0 \<lparr>superbowl_squares = [cell 2 2 ''a'' True], superbowl_config = None\<rparr> []"
proof -
  let ?w = "world0 three_cells []"
  let ?v = "world0 \<lparr>superbowl_squares = [cell 2 2 ''a'' True], superbowl_config = None\<rparr> []"
  have e: "env ?w = []" "env ?v = []" by (simp_all add: world0_def)
  have u: "unique_coords (store ?w)" "unique_coords (store ?v)"
    by (simp_all add: unique_coords_def eval_defs)
  have claim: "squares_POST (Some ''c'') (JNum 1) (JNum 1) ?w =
     ((200, Claimed 1 1 ''c''),
      world0 \<lparr>superbowl_squares =
                [cell 0 0 ''a'' False, cell 0 1 ''b'' False, cell 5 5 ''a'' False,
                 cell 1 1 ''c'' False],
              superbowl_config = None\<rparr> [])"
    using squares_POST_toggle [OF e(1) u(1), of 1 1 "''c''"]
    by (simp add: eval_defs cell_at_def)
  have release: "squares_POST (Some ''a'') (JNum 0) (JNum 0) ?w =
     ((200, Released 0 0),
      world0 \<lparr>superbowl_squares = [cell 0 1 ''b'' False, cell 5 5 ''a'' False],
              superbowl_config = None\<rparr> [])"
    using squares_POST_toggle [OF e(1) u(1), of 0 0 "''a''"]
    by (simp add: eval_defs cell_at_def)
  have taken: "fst (fst (squares_POST (Some ''b'') (JNum 0) (JNum 0) ?w)) = 403
     \<and> snd (squares_POST (Some ''b'') (JNum 0) (JNum 0) ?w) = ?w"
    using squares_POST_toggle [OF e(1) u(1), of 0 0 "''b''"]
    by (simp add: eval_defs cell_at_def)
  have locked: "fst (fst (squares_POST (Some ''a'') (JNum 2) (JNum 2) ?v)) = 403
     \<and> snd (squares_POST (Some ''a'') (JNum 2) (JNum 2) ?v) = ?v"
    using squares_POST_toggle [OF e(2) u(2), of 2 2 "''a''"]
    by (simp add: eval_defs cell_at_def)
  show ?thesis using claim release taken locked by simp
qed

text \<open>
  C8.  When the toggle answers 200 (store calls may have failed on the way, no
  statement of another request is interleaved), it has changed the table at the
  requested coordinate only.  A \<open>released\<close> answer means the coordinate held one row,
  owned by the caller and unlocked, and exactly that row is gone; a \<open>claimed\<close> answer
  means the coordinate held no row and the row \<open>(row, col, caller, locked = false)\<close> is
  appended.  The rows at every other coordinate, and the configuration, are as before.
\<close>

theorem squares_POST_frame:
  assumes "calm (env w)" and "squares_POST (Some u) (JNum r) (JNum c) w = ((200, b), w')"
  shows "(b = Released r c
            \<and> (\<exists>s. at_rc r c (store w) = [s] \<and> cell_at (store w) r c = Some s
                  \<and> email s = u \<and> \<not> locked s
                  \<and> superbowl_squares (store w') = remove1 s (superbowl_squares (store w)))
          \<or> b = Claimed r c u
            \<and> at_rc r c (store w) = [] \<and> cell_at (store w) r c = None
            \<and> superbowl_squares (store w') =
                superbowl_squares (store w) @ [\<lparr>row_num = r, col_num = c, email = u, locked = False\<rparr>])
         \<and> filter (\<lambda>s. coord s \<noteq> (r, c)) (superbowl_squares (store w')) =
             filter (\<lambda>s. coord s \<noteq> (r, c)) (superbowl_squares (store w))
         \<and> superbowl_config (store w') = superbowl_config (store w)"
proof -
  let ?xs = "superbowl_squares (store w)"
  have range: "0 \<le> r" "r \<le> 9" "0 \<le> c" "c \<le> 9"
    using assms(2) squares_POST_out_of_range [of r c u w] by fastforce+
  note nf = squares_POST_calm_nf [OF assms(1) range, of u]
  have single: "length (at_rc r c (store w)) = 1 \<Longrightarrow> at_rc r c (store w) = [hd (at_rc r c (store w))]"
    by (cases "at_rc r c (store w)") simp_all
  have eff: "b = Released r c
            \<and> (\<exists>s. at_rc r c (store w) = [s] \<and> email s = u \<and> \<not> locked s
                  \<and> superbowl_squares (store w') =
                      filter (\<lambda>x. \<not> (row_num x = r \<and> col_num x = c \<and> email x = u)) ?xs)
          \<or> b = Claimed r c u
            \<and> at_rc r c (store w) = []
            \<and> superbowl_squares (store w') =
                ?xs @ [\<lparr>row_num = r, col_num = c, email = u, locked = False\<rparr>]"
    using assms(2) single unfolding nf by (auto split: if_splits)
  have eff': "b = Released r c
            \<and> (\<exists>s. at_rc r c (store w) = [s] \<and> cell_at (store w) r c = Some s
                  \<and> email s = u \<and> \<not> locked s
                  \<and> superbowl_squares (store w') = remove1 s ?xs)
          \<or> b = Claimed r c u
            \<and> at_rc r c (store w) = [] \<and> cell_at (store w) r c = None
            \<and> superbowl_squares (store w') =
                ?xs @ [\<lparr>row_num = r, col_num = c, email = u, locked = False\<rparr>]"
    using eff
  proof (elim disjE conjE exE)
    fix s
    assume s: "b = Released r c" "at_rc r c (store w) = [s]" "email s = u" "\<not> locked s"
      "superbowl_squares (store w') =
         filter (\<lambda>x. \<not> (row_num x = r \<and> col_num x = c \<and> email x = u)) ?xs"
    have gone: "superbowl_squares (store w') = remove1 s ?xs"
      unfolding s(5) by (rule release_single [OF s(2,3)])
    have "cell_at (store w) r c = Some s" using s(2) by (simp add: cell_at_at_rc)
    then show ?thesis using s(1-4) gone by blast
  next
    assume cl: "b = Claimed r c u" "at_rc r c (store w) = []"
      "superbowl_squares (store w') =
         ?xs @ [\<lparr>row_num = r, col_num = c, email = u, locked = False\<rparr>]"
    have "cell_at (store w) r c = None" using cl(2) by (simp add: cell_at_at_rc)
    then show ?thesis using cl by blast
  qed
  have del: "filter (\<lambda>s. coord s \<noteq> (r, c))
               (filter (\<lambda>x. \<not> (row_num x = r \<and> col_num x = c \<and> email x = u)) ?xs) =
             filter (\<lambda>s. coord s \<noteq> (r, c)) ?xs"
    unfolding filter_filter by (rule filter_cong) (auto simp: coord_def)
  have app: "filter (\<lambda>s. coord s \<noteq> (r, c))
               (?xs @ [\<lparr>row_num = r, col_num = c, email = u, locked = False\<rparr>]) =
             filter (\<lambda>s. coord s \<noteq> (r, c)) ?xs"
    by (simp add: coord_def)
  have fr: "filter (\<lambda>s. coord s \<noteq> (r, c)) (superbowl_squares (store w')) =
             filter (\<lambda>s. coord s \<noteq> (r, c)) ?xs"
    using eff by (elim disjE conjE exE) (simp_all only: del app)
  have cfg: "superbowl_config (store w') = superbowl_config (store w)"
    using squares_POST_keeps_config [OF assms] by simp
  show ?thesis using eff' fr cfg by blast
qed

theorem squares_POST_frame_witness:
  "calm (env (world0 three_cells [Fault, Others []]))
   \<and> squares_POST (Some ''a'') (JNum 0) (JNum 0) (world0 three_cells [Fault, Others []]) =
       ((200, Released 0 0),
        world0 \<lparr>superbowl_squares = [cell 0 1 ''b'' False, cell 5 5 ''a'' False],
                superbowl_config = None\<rparr> [])
   \<and> filter (\<lambda>s. coord s \<noteq> (0, 0)) [cell 0 1 ''b'' False, cell 5 5 ''a'' False] =
       filter (\<lambda>s. coord s \<noteq> (0, 0)) (superbowl_squares three_cells)
   \<and> remove1 (cell 0 0 ''a'' False) (superbowl_squares three_cells) =
       [cell 0 1 ''b'' False, cell 5 5 ''a'' False]"
proof -
  let ?w = "world0 three_cells [Fault, Others []]"
  have k: "calm (env ?w)" by (simp add: world0_def calm_def)
  have run: "squares_POST (Some ''a'') (JNum 0) (JNum 0) ?w =
       ((200, Released 0 0),
        world0 \<lparr>superbowl_squares = [cell 0 1 ''b'' False, cell 5 5 ''a'' False],
                superbowl_config = None\<rparr> [])"
    using k by (simp add: squares_POST_calm_nf eval_defs at_rc_def faulty_def)
  from squares_POST_frame [OF k run] show ?thesis
    using k run by (simp add: eval_defs)
qed

section \<open>Lock finality\<close>








lemma serve_after_lock_example:
  "fst (serve [Toggle (Some ''a'') (JNum 0) (JNum 0), Toggle (Some ''a'') (JNum 7) (JNum 7),
               LockIn (Some ''a''), Toggle (Some ''b'') (JNum 7) (JNum 7)] after_lock) =
     [(403, Error ''You have already locked in your squares''),
      (403, Error ''You have already locked in your squares''),
      (400, Error ''Your squares are already locked''),
      (200, Claimed 7 7 ''b'')]"
  by (simp add: after_lock_def squares_POST_quiet lock_POST_quiet eval_defs at_rc_def)


section \<open>A lost race on the insert\<close>

text \<open>
  C5 as stated fails.  Participant \<open>a\<close> toggles the empty cell (3, 4); between the
  existence query and the insert, the insert of participant \<open>b\<close> for the same cell
  reaches the store.  The insert of \<open>a\<close> is refused by the uniqueness constraint and
  the route answers 500, not 403.
\<close>

theorem squares_POST_lost_race_counterexample:
  "squares_POST (Some ''a'') (JNum 3) (JNum 4) race_world =
     ((500, Error ''Failed to claim square''),
      world0 \<lparr>superbowl_squares = [cell 3 4 ''b'' False], superbowl_config = None\<rparr> [])
   \<and> fst (insert_square (cell 3 4 ''a'' False)
        \<lparr>superbowl_squares = [cell 3 4 ''b'' False], superbowl_config = None\<rparr>) =
       Inl UniqueViolation
   \<and> fst (fst (squares_POST (Some ''a'') (JNum 3) (JNum 4) race_world)) \<noteq> 403"
  by (simp add: race_world_def squares_POST_def store_call_def faulty_def arrive_def
      limit_select single_select insert_square_def delete_where_def world0_def cell_def)

text \<open>
  C5, amended.  Whatever statements of other requests reach the store between the
  calls of a toggle: when the participant had no locked cell at the guard query, the
  existence query saw no row at the coordinate, and the coordinate has a row when the
  insert arrives (the claimant lost the race), the insert is refused by the uniqueness
  constraint and the toggle answers with status 500 and the message
  \<open>Failed to claim square\<close>.  The route itself changes nothing in the store, so the
  cell stays with its first owner.
\<close>

theorem squares_POST_lost_race:
  assumes "0 \<le> r" "r \<le> 9" "0 \<le> c" "c \<le> 9"
    and "env w = Others ws1 # Others ws2 # Others ws3 # es"
    and "\<not> isLocked u (fold apply_stmt ws1 (store w))"
    and "at_rc r c (fold apply_stmt (ws1 @ ws2) (store w)) = []"
    and "at_rc r c (fold apply_stmt (ws1 @ ws2 @ ws3) (store w)) \<noteq> []"
  shows "squares_POST (Some u) (JNum r) (JNum c) w =
           ((500, Error ''Failed to claim square''),
            w\<lparr>store := fold apply_stmt (ws1 @ ws2 @ ws3) (store w), env := es\<rparr>)
         \<and> fst (insert_square \<lparr>row_num = r, col_num = c, email = u, locked = False\<rparr>
              (fold apply_stmt (ws1 @ ws2 @ ws3) (store w))) = Inl UniqueViolation"
  using assms
  by (simp add: squares_POST_def store_call_def faulty_def arrive_def limit_select
      single_select guard_isLocked [symmetric] insert_square_def at_rc_def)

theorem squares_POST_lost_race_witness:
  "env race_world = [Others [], Others [], Others [InsertSquare (cell 3 4 ''b'' False)]]
   \<and> \<not> isLocked ''a'' (store race_world)
   \<and> at_rc 3 4 (store race_world) = []
   \<and> at_rc 3 4 (fold apply_stmt [InsertSquare (cell 3 4 ''b'' False)] (store race_world)) =
       [cell 3 4 ''b'' False]
   \<and> squares_POST (Some ''a'') (JNum 3) (JNum 4) race_world =
       ((500, Error ''Failed to claim square''),
        world0 \<lparr>superbowl_squares = [cell 3 4 ''b'' False], superbowl_config = None\<rparr> [])"
proof -
  let ?ws = "[InsertSquare (cell 3 4 ''b'' False)]"
  have e: "env race_world = [Others [], Others [], Others ?ws]"
    by (simp add: race_world_def world0_def)
  have l: "\<not> isLocked ''a'' (store race_world)"
    by (simp add: race_world_def eval_defs)
  have n: "at_rc 3 4 (store race_world) = []"
    by (simp add: race_world_def world0_def at_rc_def)
  have t: "at_rc 3 4 (fold apply_stmt ?ws (store race_world)) = [cell 3 4 ''b'' False]"
    by (simp add: race_world_def world0_def at_rc_def insert_square_def cell_def)
  have l': "\<not> isLocked ''a'' (fold apply_stmt [] (store race_world))" using l by simp
  have n': "at_rc 3 4 (fold apply_stmt ([] @ []) (store race_world)) = []" using n by simp
  have t': "at_rc 3 4 (fold apply_stmt ([] @ [] @ ?ws) (store race_world)) \<noteq> []"
    using t by simp
  have s: "race_world\<lparr>store := fold apply_stmt ([] @ [] @ ?ws) (store race_world), env := []\<rparr> =
      world0 \<lparr>superbowl_squares = [cell 3 4 ''b'' False], superbowl_config = None\<rparr> []"
    by (simp add: race_world_def world0_def insert_square_def cell_def)
  from squares_POST_lost_race [OF _ _ _ _ e l' n' t'] show ?thesis
    unfolding s using e l n t by simp
qed

section \<open>Store failures\<close>





end
